theory Spec2Isabelle
  imports Complex_Main "HOL-Library.Sublist" "HOL-Library.Multiset"
begin

chapter \<open>The model\<close>

section \<open>Data model\<close>

text \<open>
  The project record as the components read it (\<open>ProjectDto\<close>). A field that the code
  guards with \<open>?.\<close> or \<open>|| default\<close> is nullable and is an \<open>option\<close> here, with
  \<open>None\<close> for \<open>null\<close>. Task counts are integers. Capacities and money values are
  exact rationals: the rounding of IEEE doubles is not modelled, every number is
  finite. Strings are lists of 8-bit characters; text outside ASCII stands as the
  bytes of its UTF-8 encoding.
\<close>

record ProjectDto =
  projectName :: "string option"
  address :: "string option"
  clientInfo :: "string option"
  status :: "string option"
  totalCapacityKw :: "rat option"
  startDate :: string
  estimatedEndDate :: "string option"
  taskCount :: int
  completedTaskCount :: int
  revenueValue :: "rat option"
  ftsValue :: "rat option"

section \<open>Derived metrics of one record\<close>

text \<open>\<open>Math.round\<close>: the nearest integer, a tie going towards plus infinity.\<close>

definition Math_round :: "rat \<Rightarrow> int" where
  "Math_round x = \<lfloor>x + 1 / 2\<rfloor>"

text \<open>
  \<^verbatim>\<open>if (project.taskCount === 0) return 0;
  return Math.round((project.completedTaskCount / project.taskCount) * 100);\<close>
  The quotient is the exact one.
\<close>

definition calculateProgress :: "ProjectDto \<Rightarrow> int" where
  "calculateProgress project =
     (if taskCount project = 0 then 0
      else Math_round
        ((rat_of_int (completedTaskCount project) / rat_of_int (taskCount project)) * 100))"

text \<open>
  \<^verbatim>\<open>if (project.status === "OnHold") return "High";
  if (project.status === "InProgress" && progress < 30) return "Medium";
  if (project.status === "Planning") return "Low";
  return "Normal";\<close>
\<close>

definition getPriority :: "ProjectDto \<Rightarrow> string" where
  "getPriority project =
     (let progress = calculateProgress project in
      if status project = Some ''OnHold'' then ''High''
      else if status project = Some ''InProgress'' \<and> progress < 30 then ''Medium''
      else if status project = Some ''Planning'' then ''Low''
      else ''Normal'')"

text \<open>
  A JavaScript number that may fail to be finite. \<open>Num\<close> carries the exact value.
\<close>

datatype 'a number = Num 'a | NaN | PosInfinity | NegInfinity

text \<open>The binary \<open>-\<close> of JavaScript on such numbers.\<close>

fun minus_number :: "int number \<Rightarrow> int number \<Rightarrow> int number" where
  "minus_number (Num a) (Num b) = Num (a - b)"
| "minus_number NaN y = NaN"
| "minus_number x NaN = NaN"
| "minus_number PosInfinity PosInfinity = NaN"
| "minus_number NegInfinity NegInfinity = NaN"
| "minus_number PosInfinity y = PosInfinity"
| "minus_number NegInfinity y = NegInfinity"
| "minus_number x PosInfinity = NegInfinity"
| "minus_number x NegInfinity = PosInfinity"

text \<open>\<open>x < c\<close> for a finite \<open>c\<close>: false on \<open>NaN\<close>.\<close>

fun less_number :: "int number \<Rightarrow> int \<Rightarrow> bool" where
  "less_number (Num a) c = (a < c)"
| "less_number NaN c = False"
| "less_number PosInfinity c = False"
| "less_number NegInfinity c = True"

text \<open>
  \<open>Math.floor(x / (1000 * 60 * 60 * 24))\<close>: the divisor is a positive constant, an
  infinity and \<open>NaN\<close> pass through.
\<close>

fun floor_days :: "int number \<Rightarrow> int number" where
  "floor_days (Num d) = Num \<lfloor>rat_of_int d / (1000 * 60 * 60 * 24)\<rfloor>"
| "floor_days NaN = NaN"
| "floor_days PosInfinity = PosInfinity"
| "floor_days NegInfinity = NegInfinity"

text \<open>
  The text of an integer in a template literal: decimal digits, a minus sign in front
  of a negative value (\<open>Number::toString\<close> below \<open>10^21\<close>).
\<close>

fun digits :: "nat \<Rightarrow> string" where
  "digits n =
     (if n < 10 then [char_of (48 + n)] else digits (n div 10) @ [char_of (48 + n mod 10)])"

definition Number_toString :: "int \<Rightarrow> string" where
  "Number_toString i = (if i < 0 then CHR ''-'' # digits (nat (- i)) else digits (nat i))"

text \<open>
  The pictographs of the messages, as the bytes of their UTF-8 encoding: U+2705,
  U+26A0 U+FE0F, U+23F0, U+1F4C5 and U+1F6A7.
\<close>

definition check_mark :: string where
  "check_mark = [CHR 0xE2, CHR 0x9C, CHR 0x85]"

definition warning_sign :: string where
  "warning_sign = [CHR 0xE2, CHR 0x9A, CHR 0xA0, CHR 0xEF, CHR 0xB8, CHR 0x8F]"

definition alarm_clock :: string where
  "alarm_clock = [CHR 0xE2, CHR 0x8F, CHR 0xB0]"

definition calendar :: string where
  "calendar = [CHR 0xF0, CHR 0x9F, CHR 0x93, CHR 0x85]"

definition construction_sign :: string where
  "construction_sign = [CHR 0xF0, CHR 0x9F, CHR 0x9A, CHR 0xA7]"

text \<open>
  \<^verbatim>\<open>if (!endDate) return null;
  const end = new Date(endDate);
  const now = new Date();
  const diffInDays = Math.floor((end.getTime() - now.getTime()) / (1000 * 60 * 60 * 24));
  return diffInDays;\<close>
  The parser of date strings and the clock are parameters: \<open>getTime s\<close> is
  \<open>new Date(s).getTime()\<close>, \<open>NaN\<close> for an invalid date, and \<open>now\<close> is the current
  time in milliseconds. \<open>None\<close> is \<open>null\<close>; \<open>!endDate\<close> holds of \<open>null\<close> and of the
  empty string.
\<close>

definition getDaysUntilEnd ::
  "(string \<Rightarrow> int number) \<Rightarrow> int \<Rightarrow> string option \<Rightarrow> int number option" where
  "getDaysUntilEnd getTime now endDate =
     (case endDate of
        None \<Rightarrow> None
      | Some s \<Rightarrow>
          if s = [] then None
          else Some (floor_days (minus_number (getTime s) (Num now))))"

text \<open>
  \<^verbatim>\<open>if (progress === 100) return "<U+2705> Completed";
  if (daysUntilEnd !== null) {
    if (daysUntilEnd < 0) return "<U+26A0 U+FE0F> Overdue";
    if (daysUntilEnd < 7) return `<U+23F0> Due in ${daysUntilEnd} days`;
    if (daysUntilEnd < 30) return `<U+1F4C5> Due in ${daysUntilEnd} days`;
  }
  return `<U+1F6A7> ${progress}% complete`;\<close>
  The interpolated day count is finite in both branches that print it.
\<close>

definition getCompletionMessage ::
  "(string \<Rightarrow> int number) \<Rightarrow> int \<Rightarrow> ProjectDto \<Rightarrow> string" where
  "getCompletionMessage getTime now project =
     (let progress = calculateProgress project;
          daysUntilEnd = getDaysUntilEnd getTime now (estimatedEndDate project);
          fallback = construction_sign @ '' '' @ Number_toString progress @ ''% complete''
      in if progress = 100 then check_mark @ '' Completed''
         else case daysUntilEnd of
           None \<Rightarrow> fallback
         | Some d \<Rightarrow>
             if less_number d 0 then warning_sign @ '' Overdue''
             else if less_number d 7 then
               (case d of Num k \<Rightarrow> alarm_clock @ '' Due in '' @ Number_toString k @ '' days''
                | _ \<Rightarrow> fallback)
             else if less_number d 30 then
               (case d of Num k \<Rightarrow> calendar @ '' Due in '' @ Number_toString k @ '' days''
                | _ \<Rightarrow> fallback)
             else fallback)"

section \<open>The derivation pipeline of the project list\<close>

subsection \<open>Filter\<close>

text \<open>
  \<open>String.prototype.toLowerCase\<close> on the letters A to Z; any other character is kept.
\<close>

definition toLowerCase_char :: "char \<Rightarrow> char" where
  "toLowerCase_char c =
     (let n = (of_char c :: nat) in if 65 \<le> n \<and> n \<le> 90 then char_of (n + 32) else c)"

definition toLowerCase :: "string \<Rightarrow> string" where
  "toLowerCase s = map toLowerCase_char s"

text \<open>
  \<open>String.prototype.includes\<close>: the search string occurs at some position of the
  text, tried from the left.
\<close>

fun String_includes :: "string \<Rightarrow> string \<Rightarrow> bool" where
  "String_includes [] s = (s = [])"
| "String_includes (c # cs) s = (prefix s (c # cs) \<or> String_includes cs s)"

text \<open>\<open>v?.toLowerCase() || ""\<close>\<close>

definition lowered_or_empty :: "string option \<Rightarrow> string" where
  "lowered_or_empty v = (case v of None \<Rightarrow> [] | Some s \<Rightarrow> toLowerCase s)"

definition matchesSearch :: "string \<Rightarrow> ProjectDto \<Rightarrow> bool" where
  "matchesSearch searchTerm project =
     (String_includes (lowered_or_empty (projectName project)) (toLowerCase searchTerm) \<or>
      String_includes (lowered_or_empty (address project)) (toLowerCase searchTerm) \<or>
      String_includes (lowered_or_empty (clientInfo project)) (toLowerCase searchTerm))"

definition matchesStatus :: "string \<Rightarrow> ProjectDto \<Rightarrow> bool" where
  "matchesStatus statusFilter project =
     (statusFilter = ''all'' \<or> status project = Some statusFilter)"

definition filteredProjects :: "ProjectDto list \<Rightarrow> string \<Rightarrow> string \<Rightarrow> ProjectDto list" where
  "filteredProjects projects searchTerm statusFilter =
     filter (\<lambda>project. matchesSearch searchTerm project \<and> matchesStatus statusFilter project)
       projects"

text \<open>
  The filter in the words of the specification: the search term, without regard to
  case, is a substring of one of the three text fields, a null field counting as the
  empty string, and the status filter is "all" or is the status of the record.
\<close>

definition text_of :: "string option \<Rightarrow> string" where
  "text_of v = (case v of None \<Rightarrow> [] | Some s \<Rightarrow> s)"

definition substring_ignoring_case :: "string \<Rightarrow> string \<Rightarrow> bool" where
  "substring_ignoring_case s t = (\<exists>before after. toLowerCase t = before @ toLowerCase s @ after)"

definition spec_matches :: "string \<Rightarrow> string \<Rightarrow> ProjectDto \<Rightarrow> bool" where
  "spec_matches s f project =
     ((substring_ignoring_case s (text_of (projectName project)) \<or>
       substring_ignoring_case s (text_of (address project)) \<or>
       substring_ignoring_case s (text_of (clientInfo project))) \<and>
      (f = ''all'' \<or> status project = Some f))"

subsection \<open>Sort\<close>

text \<open>\<open>v || ""\<close> and \<open>v || 0\<close>\<close>

definition or_empty :: "string option \<Rightarrow> string" where
  "or_empty v = (case v of None \<Rightarrow> [] | Some s \<Rightarrow> s)"

definition or_zero :: "rat option \<Rightarrow> rat" where
  "or_zero v = (case v of None \<Rightarrow> 0 | Some x \<Rightarrow> x)"

text \<open>
  An exception thrown while the component renders.
\<close>

datatype error = ReferenceError string

text \<open>
  \<open>calculateProgress\<close> as the comparison function finds it. The component body
  declares it as a \<open>const\<close> on line 145; the sort runs on line 59 of the same render,
  before that declaration has been evaluated, so a call from inside the sort throws.
  The calls from \<open>getPriority\<close>, \<open>getCompletionMessage\<close> and the markup come after it
  and see the function.
\<close>

definition calculateProgress_in_sort :: "ProjectDto \<Rightarrow> error + int" where
  "calculateProgress_in_sort project = Inl (ReferenceError ''calculateProgress'')"

text \<open>
  The comparison function handed to \<open>sort\<close>, one case per sort key, 0 for any other
  key. \<open>String.prototype.localeCompare\<close> depends on the locale of the browser and is
  a parameter, as is the date parser. ECMAScript requires of \<open>localeCompare\<close> that
  it be a consistent comparison on all strings.
  \<^verbatim>\<open>case "progress": return calculateProgress(b) - calculateProgress(a);\<close>
\<close>

definition compareProjects ::
  "(string \<Rightarrow> string \<Rightarrow> int) \<Rightarrow> (string \<Rightarrow> int number) \<Rightarrow> string \<Rightarrow>
   ProjectDto \<Rightarrow> ProjectDto \<Rightarrow> error + rat number" where
  "compareProjects localeCompare getTime sortBy a b =
     (if sortBy = ''name'' then
        Inr (Num (rat_of_int
          (localeCompare (or_empty (projectName a)) (or_empty (projectName b)))))
      else if sortBy = ''status'' then
        Inr (Num (rat_of_int (localeCompare (or_empty (status a)) (or_empty (status b)))))
      else if sortBy = ''capacity'' then
        Inr (Num (or_zero (totalCapacityKw b) - or_zero (totalCapacityKw a)))
      else if sortBy = ''startDate'' then
        Inr (map_number rat_of_int
          (minus_number (getTime (startDate a)) (getTime (startDate b))))
      else if sortBy = ''progress'' then
        (case calculateProgress_in_sort b of
           Inl e \<Rightarrow> Inl e
         | Inr pb \<Rightarrow>
             (case calculateProgress_in_sort a of
                Inl e \<Rightarrow> Inl e
              | Inr pa \<Rightarrow> Inr (Num (rat_of_int (pb - pa)))))
      else Inr (Num 0))"

text \<open>
  \<open>Array.prototype.sort\<close> with a comparison function. ECMAScript reads a result
  \<open>NaN\<close> as 0, keeps \<open>a\<close> before \<open>b\<close> unless the result is positive, and sorts stably;
  for a consistent comparison function that fixes the result, which the insertion
  sort below computes. An exception of the comparison function ends the sort. A list
  of fewer than two records is returned without a comparison, any longer list is
  compared at least once. \<open>keeps_before v\<close>: the result \<open>v\<close> does not put the first
  argument after the second.
\<close>

definition keeps_before :: "rat number \<Rightarrow> bool" where
  "keeps_before v =
     (case v of Num r \<Rightarrow> r \<le> 0 | NaN \<Rightarrow> True | PosInfinity \<Rightarrow> False | NegInfinity \<Rightarrow> True)"

fun insert_sorted ::
  "('a \<Rightarrow> 'a \<Rightarrow> error + rat number) \<Rightarrow> 'a \<Rightarrow> 'a list \<Rightarrow> error + 'a list" where
  "insert_sorted f x [] = Inr [x]"
| "insert_sorted f x (y # ys) =
     (case f x y of
        Inl e \<Rightarrow> Inl e
      | Inr v \<Rightarrow>
          if keeps_before v then Inr (x # y # ys)
          else (case insert_sorted f x ys of Inl e \<Rightarrow> Inl e | Inr zs \<Rightarrow> Inr (y # zs)))"

fun Array_sort :: "('a \<Rightarrow> 'a \<Rightarrow> error + rat number) \<Rightarrow> 'a list \<Rightarrow> error + 'a list" where
  "Array_sort f [] = Inr []"
| "Array_sort f (x # xs) =
     (case Array_sort f xs of Inl e \<Rightarrow> Inl e | Inr ys \<Rightarrow> insert_sorted f x ys)"

definition sortedProjects ::
  "(string \<Rightarrow> string \<Rightarrow> int) \<Rightarrow> (string \<Rightarrow> int number) \<Rightarrow> string \<Rightarrow>
   ProjectDto list \<Rightarrow> error + ProjectDto list" where
  "sortedProjects localeCompare getTime sortBy filtered =
     Array_sort (compareProjects localeCompare getTime sortBy) filtered"

text \<open>
  The same sort for a comparison function that cannot throw, for the proofs.
\<close>

definition not_after :: "('a \<Rightarrow> 'a \<Rightarrow> rat number) \<Rightarrow> 'a \<Rightarrow> 'a \<Rightarrow> bool" where
  "not_after g a b = keeps_before (g a b)"

fun insert_total :: "('a \<Rightarrow> 'a \<Rightarrow> rat number) \<Rightarrow> 'a \<Rightarrow> 'a list \<Rightarrow> 'a list" where
  "insert_total g x [] = [x]"
| "insert_total g x (y # ys) =
     (if not_after g x y then x # y # ys else y # insert_total g x ys)"

definition sort_total :: "('a \<Rightarrow> 'a \<Rightarrow> rat number) \<Rightarrow> 'a list \<Rightarrow> 'a list" where
  "sort_total g xs = foldr (insert_total g) xs []"

text \<open>
  What the claim asks of a sorted list, for an order \<open>le\<close> on the records: the same
  records, in ascending order, and the records that tie with any given record in their
  input order.
\<close>

definition stable_ascending ::
  "('a \<Rightarrow> 'a \<Rightarrow> bool) \<Rightarrow> 'a list \<Rightarrow> 'a list \<Rightarrow> bool" where
  "stable_ascending le xs ys =
     (mset ys = mset xs \<and> sorted_wrt le ys \<and>
      (\<forall>x. filter (\<lambda>y. le x y \<and> le y x) ys = filter (\<lambda>y. le x y \<and> le y x) xs))"

text \<open>
  A missing capacity counts as 0, in the words of the specification.
\<close>

definition missing_as_0 :: "rat option \<Rightarrow> rat" where
  "missing_as_0 v = (case v of None \<Rightarrow> 0 | Some c \<Rightarrow> c)"

text \<open>
  The start time of a record, for stating the order by date; 0 stands in for a start
  date that does not parse.
\<close>

definition time_of :: "(string \<Rightarrow> int number) \<Rightarrow> ProjectDto \<Rightarrow> int" where
  "time_of getTime p = (case getTime (startDate p) of Num t \<Rightarrow> t | _ \<Rightarrow> 0)"

text \<open>
  A comparison of strings is consistent when it is total and transitive as an order,
  \<open>cmp a b \<le> 0\<close> read as \<open>a\<close> not after \<open>b\<close>.
\<close>

definition consistent :: "(string \<Rightarrow> string \<Rightarrow> int) \<Rightarrow> bool" where
  "consistent cmp =
     ((\<forall>a b. cmp a b \<le> 0 \<or> cmp b a \<le> 0) \<and>
      (\<forall>a b c. cmp a b \<le> 0 \<and> cmp b c \<le> 0 \<longrightarrow> cmp a c \<le> 0))"

text \<open>A comparison by code units and a parser of two dates, for the examples.\<close>

fun codeUnitCompare :: "string \<Rightarrow> string \<Rightarrow> int" where
  "codeUnitCompare [] [] = 0"
| "codeUnitCompare [] (y # ys) = - 1"
| "codeUnitCompare (x # xs) [] = 1"
| "codeUnitCompare (x # xs) (y # ys) =
     (if (of_char x :: nat) < of_char y then - 1
      else if (of_char y :: nat) < of_char x then 1
      else codeUnitCompare xs ys)"

definition sample_getTime :: "string \<Rightarrow> int number" where
  "sample_getTime s =
     (if s = ''2025-01-01'' then Num 1735689600000
      else if s = ''2025-03-01'' then Num 1740787200000
      else NaN)"

subsection \<open>Paginate\<close>

definition itemsPerPage :: nat where
  "itemsPerPage = 9"

definition Math_ceil :: "rat \<Rightarrow> int" where
  "Math_ceil x = \<lceil>x\<rceil>"

definition totalPages :: "'a list \<Rightarrow> int" where
  "totalPages sortedList = Math_ceil (rat_of_nat (length sortedList) / rat_of_nat itemsPerPage)"

text \<open>
  \<open>Array.prototype.slice(start, finish)\<close>: a negative index counts from the end, both
  indices are clamped to the length, and nothing is returned when they cross.
\<close>

definition slice :: "'a list \<Rightarrow> int \<Rightarrow> int \<Rightarrow> 'a list" where
  "slice xs start finish =
     (let len = int (length xs);
          k = (if start < 0 then max (len + start) 0 else min start len);
          final = (if finish < 0 then max (len + finish) 0 else min finish len)
      in take (nat (final - k)) (drop (nat k) xs))"

definition paginatedProjects :: "'a list \<Rightarrow> int \<Rightarrow> 'a list" where
  "paginatedProjects sortedList currentPage =
     slice sortedList ((currentPage - 1) * int itemsPerPage) (currentPage * int itemsPerPage)"

text \<open>The numbers on the page buttons: \<open>[...Array(totalPages)].map((_, i) => i + 1)\<close>.\<close>

definition pageNumbers :: "'a list \<Rightarrow> int list" where
  "pageNumbers sortedList = map (\<lambda>i. int i + 1) [0..<nat (totalPages sortedList)]"

section \<open>The view state of the project list\<close>

datatype view_mode = Grid | ListView

text \<open>
  The state of \<open>ProjectsDisplay\<close>: the record list it is given and its own state
  variables. The page size is the constant \<open>itemsPerPage\<close>.
\<close>

record ViewState =
  projects :: "ProjectDto list"
  searchTerm :: string
  statusFilter :: string
  sortBy :: string
  viewMode :: view_mode
  currentPage :: int

definition initial :: "ProjectDto list \<Rightarrow> ViewState" where
  "initial ps = \<lparr>projects = ps, searchTerm = [], statusFilter = ''all'', sortBy = ''name'',
     viewMode = Grid, currentPage = 1\<rparr>"

text \<open>
  The list derived on a render: filtered, then sorted. \<open>Inl\<close>: the sort has thrown and
  the render with it.
\<close>

definition derived ::
  "(string \<Rightarrow> string \<Rightarrow> int) \<Rightarrow> (string \<Rightarrow> int number) \<Rightarrow> ViewState \<Rightarrow>
   error + ProjectDto list" where
  "derived localeCompare getTime st =
     sortedProjects localeCompare getTime (sortBy st)
       (filteredProjects (projects st) (searchTerm st) (statusFilter st))"

text \<open>
  \<^verbatim>\<open>React.useEffect(() => { setCurrentPage(1); }, [searchTerm, statusFilter, viewMode]);\<close>
  The effect runs when one of its three dependencies has changed. An event and the
  effect it triggers are one step of the model.
\<close>

definition page_reset_effect :: "ViewState \<Rightarrow> ViewState \<Rightarrow> ViewState" where
  "page_reset_effect old new =
     (if searchTerm new \<noteq> searchTerm old \<or> statusFilter new \<noteq> statusFilter old \<or>
         viewMode new \<noteq> viewMode old
      then new\<lparr>currentPage := 1\<rparr> else new)"

text \<open>
  The events: the inputs of the toolbar, the button that clears the filters of an empty
  result, the pagination buttons and a new record list from the parent. \<open>PageButton i\<close>
  is the button at index \<open>i\<close>, labelled \<open>i + 1\<close>.
\<close>

datatype event =
    SetSearchTerm string
  | SetStatusFilter string
  | ClearAllFilters
  | SetSortBy string
  | SetViewMode view_mode
  | Previous
  | Next
  | PageButton nat
  | SetProjects "ProjectDto list"

text \<open>
  The render that follows a change of the state: it throws when the sort does, and the
  component is gone; otherwise the new state is on the screen.
\<close>

definition rendered ::
  "(string \<Rightarrow> string \<Rightarrow> int) \<Rightarrow> (string \<Rightarrow> int number) \<Rightarrow> ViewState \<Rightarrow>
   error + ViewState" where
  "rendered localeCompare getTime st =
     (case derived localeCompare getTime st of Inl e \<Rightarrow> Inl e | Inr sortedList \<Rightarrow> Inr st)"

text \<open>
  One event on a state that is on the screen. \<open>None\<close>: the control is not rendered or
  is disabled in this state. The pagination controls are rendered when the derived
  list is longer than a page; Previous is disabled on page 1 and Next on the last
  page. \<open>Some (Inl e)\<close>: the render after the event has thrown \<open>e\<close>.
\<close>

definition step ::
  "(string \<Rightarrow> string \<Rightarrow> int) \<Rightarrow> (string \<Rightarrow> int number) \<Rightarrow> event \<Rightarrow> ViewState \<Rightarrow>
   (error + ViewState) option" where
  "step localeCompare getTime e st =
     (case derived localeCompare getTime st of
        Inl thrown \<Rightarrow> None
      | Inr sortedList \<Rightarrow>
          (let controls = (length sortedList > itemsPerPage);
               render = rendered localeCompare getTime
           in case e of
             SetSearchTerm s \<Rightarrow> Some (render (page_reset_effect st (st\<lparr>searchTerm := s\<rparr>)))
           | SetStatusFilter f \<Rightarrow>
               Some (render (page_reset_effect st (st\<lparr>statusFilter := f\<rparr>)))
           | ClearAllFilters \<Rightarrow>
               if length sortedList = 0 \<and> (searchTerm st \<noteq> [] \<or> statusFilter st \<noteq> ''all'')
               then Some (render
                 (page_reset_effect st (st\<lparr>searchTerm := [], statusFilter := ''all''\<rparr>)))
               else None
           | SetSortBy k \<Rightarrow> Some (render (st\<lparr>sortBy := k\<rparr>))
           | SetViewMode m \<Rightarrow> Some (render (page_reset_effect st (st\<lparr>viewMode := m\<rparr>)))
           | Previous \<Rightarrow>
               if controls \<and> currentPage st \<noteq> 1
               then Some (render (st\<lparr>currentPage := max (currentPage st - 1) 1\<rparr>))
               else None
           | Next \<Rightarrow>
               if controls \<and> currentPage st \<noteq> totalPages sortedList
               then Some (render
                 (st\<lparr>currentPage := min (currentPage st + 1) (totalPages sortedList)\<rparr>))
               else None
           | PageButton i \<Rightarrow>
               if controls \<and> i < nat (totalPages sortedList)
               then Some (render (st\<lparr>currentPage := int i + 1\<rparr>)) else None
           | SetProjects ps \<Rightarrow> Some (render (st\<lparr>projects := ps\<rparr>))))"

text \<open>The page lies within the pages of the list on the screen.\<close>

definition page_in_range ::
  "(string \<Rightarrow> string \<Rightarrow> int) \<Rightarrow> (string \<Rightarrow> int number) \<Rightarrow> ViewState \<Rightarrow> bool" where
  "page_in_range localeCompare getTime st =
     (case derived localeCompare getTime st of
        Inl e \<Rightarrow> False
      | Inr sortedList \<Rightarrow> 1 \<le> currentPage st \<and> currentPage st \<le> totalPages sortedList)"

text \<open>The events that change a dependency of the effect.\<close>

fun changes_filter :: "event \<Rightarrow> ViewState \<Rightarrow> bool" where
  "changes_filter (SetSearchTerm s) st = (s \<noteq> searchTerm st)"
| "changes_filter (SetStatusFilter f) st = (f \<noteq> statusFilter st)"
| "changes_filter (SetViewMode m) st = (m \<noteq> viewMode st)"
| "changes_filter ClearAllFilters st = True"
| "changes_filter e st = False"

text \<open>
  The events that put the page within the pages, and those that leave it as it is or
  lower it while the number of pages stays.
\<close>

fun restores_range :: "event \<Rightarrow> bool" where
  "restores_range Next = True"
| "restores_range (PageButton i) = True"
| "restores_range e = False"

fun keeps_range :: "event \<Rightarrow> bool" where
  "keeps_range Previous = True"
| "keeps_range (SetSortBy k) = True"
| "keeps_range e = False"

section \<open>KPI aggregation\<close>










section \<open>The count of active projects\<close>

text \<open>
  The query and the answer of \<open>projectsApi.getAllProjects\<close>. The call itself is a
  parameter: \<open>Inl\<close> is a rejected promise with its error, \<open>Inr\<close> the response.
\<close>

record ProjectQuery =
  pageNumber :: int
  pageSize :: int
  statusList :: string

record PagedResponse =
  items :: "ProjectDto list"
  totalCount :: int

text \<open>The state of \<open>OverviewTab\<close> and what it has written to the console.\<close>

record OverviewState =
  activeProjectsCount :: int
  console_error :: "(string \<times> string) list"

definition overview_initial :: OverviewState where
  "overview_initial = \<lparr>activeProjectsCount = 0, console_error = []\<rparr>"

text \<open>
  \<^verbatim>\<open>try {
    const response = await projectsApi.getAllProjects({
      pageNumber: 1, pageSize: 1, status: "InProgress,Planning,OnHold" });
    setActiveProjectsCount(response.totalCount);
  } catch (error) {
    console.error("Error fetching count", error);
    setActiveProjectsCount(projects.length);
  }\<close>
\<close>

definition activeQuery :: ProjectQuery where
  "activeQuery = \<lparr>pageNumber = 1, pageSize = 1, statusList = ''InProgress,Planning,OnHold''\<rparr>"

definition fetchCount ::
  "(ProjectQuery \<Rightarrow> string + PagedResponse) \<Rightarrow> ProjectDto list \<Rightarrow> OverviewState \<Rightarrow>
   OverviewState" where
  "fetchCount getAllProjects ps st =
     (case getAllProjects activeQuery of
        Inr response \<Rightarrow> st\<lparr>activeProjectsCount := totalCount response\<rparr>
      | Inl error \<Rightarrow>
          st\<lparr>console_error := console_error st @ [(''Error fetching count'', error)],
             activeProjectsCount := int (length ps)\<rparr>)"

section \<open>Sample data\<close>

definition blank :: ProjectDto where
  "blank = \<lparr>projectName = None, address = None, clientInfo = None, status = None,
     totalCapacityKw = None, startDate = ''2025-01-01'', estimatedEndDate = None,
     taskCount = 0, completedTaskCount = 0, revenueValue = None, ftsValue = None\<rparr>"

definition alpha :: ProjectDto where
  "alpha = blank\<lparr>projectName := Some ''Alpha'', status := Some ''Planning''\<rparr>"

definition beta :: ProjectDto where
  "beta = blank\<lparr>projectName := Some ''Beta'', status := Some ''InProgress'',
     taskCount := 10, completedTaskCount := 3\<rparr>"

definition overcounted :: ProjectDto where
  "overcounted = blank\<lparr>taskCount := 1, completedTaskCount := 2\<rparr>"

definition on_hold :: ProjectDto where
  "on_hold = blank\<lparr>projectName := Some ''Gamma'', status := Some ''OnHold''\<rparr>"

definition early :: ProjectDto where
  "early = blank\<lparr>projectName := Some ''Delta'', status := Some ''InProgress'',
     taskCount := 10, completedTaskCount := 2\<rparr>"

definition due :: ProjectDto where
  "due = beta\<lparr>estimatedEndDate := Some ''2025-03-01''\<rparr>"

definition finished :: ProjectDto where
  "finished = due\<lparr>taskCount := 4, completedTaskCount := 4\<rparr>"

definition undated :: ProjectDto where
  "undated = beta\<lparr>estimatedEndDate := Some ''soon''\<rparr>"

definition failing_api :: "ProjectQuery \<Rightarrow> string + PagedResponse" where
  "failing_api q = Inl ''Network Error''"

definition working_api :: "ProjectQuery \<Rightarrow> string + PagedResponse" where
  "working_api q =
     (if statusList q = ''InProgress,Planning,OnHold''
      then Inr \<lparr>items = [beta], totalCount = 7\<rparr>
      else Inr \<lparr>items = [], totalCount = 0\<rparr>)"


definition small_plant :: ProjectDto where
  "small_plant = alpha\<lparr>totalCapacityKw := Some 50, startDate := ''2025-03-01''\<rparr>"

definition large_plant :: ProjectDto where
  "large_plant = beta\<lparr>totalCapacityKw := Some 120\<rparr>"

definition ten :: "ProjectDto list" where
  "ten = replicate 10 beta"

definition on_page_two :: ViewState where
  "on_page_two = (initial ten)\<lparr>currentPage := 2\<rparr>"

definition shrunk :: ViewState where
  "shrunk = on_page_two\<lparr>projects := [alpha, beta]\<rparr>"

definition searching :: ViewState where
  "searching = on_page_two\<lparr>searchTerm := ''BETA'', currentPage := 1\<rparr>"

chapter \<open>Properties\<close>

section \<open>Progress\<close>

lemma Math_round_mono: "x \<le> y \<Longrightarrow> Math_round x \<le> Math_round y"
  unfolding Math_round_def by (intro floor_mono) simp

lemma Math_round_of_int: "Math_round (rat_of_int k) = k"
  unfolding Math_round_def by linarith

lemma Math_round_0: "Math_round 0 = 0"
  using Math_round_of_int [of 0] by simp

lemma Math_round_100: "Math_round 100 = 100"
  using Math_round_of_int [of 100] by simp

lemma ratio_bounds:
  fixes c t :: int
  assumes "0 \<le> c" "c \<le> t" "t \<noteq> 0"
  shows "0 \<le> (rat_of_int c / rat_of_int t) * 100"
    and "(rat_of_int c / rat_of_int t) * 100 \<le> 100"
proof -
  have t: "0 < rat_of_int t" using assms by simp
  show "0 \<le> (rat_of_int c / rat_of_int t) * 100"
    using assms t by simp
  have "rat_of_int c / rat_of_int t \<le> 1"
    using assms t by (simp add: divide_le_eq)
  then have "(rat_of_int c / rat_of_int t) * 100 \<le> 1 * 100"
    by (intro mult_right_mono) simp_all
  then show "(rat_of_int c / rat_of_int t) * 100 \<le> 100" by simp
qed

text \<open>
  Claim C1, as the code has it: the progress is 0 whenever the task count is 0,
  whatever the completed count is, and it lies between 0 and 100 whenever the completed
  count lies between 0 and the task count.
\<close>

theorem calculateProgress_range:
  "(taskCount p = 0 \<longrightarrow> calculateProgress p = 0) \<and>
   (0 \<le> completedTaskCount p \<and> completedTaskCount p \<le> taskCount p \<longrightarrow>
      0 \<le> calculateProgress p \<and> calculateProgress p \<le> 100)"
proof (intro conjI impI)
  assume "taskCount p = 0"
  then show "calculateProgress p = 0" by (simp add: calculateProgress_def)
next
  assume b: "0 \<le> completedTaskCount p \<and> completedTaskCount p \<le> taskCount p"
  show "0 \<le> calculateProgress p"
  proof (cases "taskCount p = 0")
    case True
    then show ?thesis by (simp add: calculateProgress_def)
  next
    case False
    have "Math_round 0 \<le>
        Math_round ((rat_of_int (completedTaskCount p) / rat_of_int (taskCount p)) * 100)"
      using ratio_bounds(1) [of "completedTaskCount p" "taskCount p"] b False
      by (intro Math_round_mono) simp
    with False show ?thesis
      unfolding calculateProgress_def Math_round_0 by simp
  qed
  show "calculateProgress p \<le> 100"
  proof (cases "taskCount p = 0")
    case True
    then show ?thesis by (simp add: calculateProgress_def)
  next
    case False
    have "Math_round ((rat_of_int (completedTaskCount p) / rat_of_int (taskCount p)) * 100)
        \<le> Math_round 100"
      using ratio_bounds(2) [of "completedTaskCount p" "taskCount p"] b False
      by (intro Math_round_mono) simp
    with False show ?thesis
      unfolding calculateProgress_def Math_round_100 by simp
  qed
qed

theorem calculateProgress_range_witness:
  "taskCount alpha = 0 \<and> calculateProgress alpha = 0 \<and>
   0 \<le> completedTaskCount beta \<and> completedTaskCount beta \<le> taskCount beta \<and>
   0 \<le> calculateProgress beta \<and> calculateProgress beta \<le> 100"
  using calculateProgress_range [of alpha] calculateProgress_range [of beta]
  by (simp add: alpha_def beta_def blank_def)

text \<open>
  Two completed tasks out of one give 200: without the bound on the completed count
  the progress leaves the range.
\<close>

theorem calculateProgress_range_counterexample:
  "\<not> (0 \<le> calculateProgress overcounted \<and> calculateProgress overcounted \<le> 100)"
  by (simp add: overcounted_def blank_def calculateProgress_def Math_round_def)

text \<open>The rounded quotient as an integer division, for a task count other than 0.\<close>

lemma calculateProgress_div:
  assumes "taskCount p \<noteq> 0"
  shows "calculateProgress p =
    (200 * completedTaskCount p + taskCount p) div (2 * taskCount p)"
proof -
  let ?c = "completedTaskCount p" and ?t = "taskCount p"
  have "(rat_of_int ?c / rat_of_int ?t) * 100 + 1 / 2 =
      rat_of_int (200 * ?c + ?t) / rat_of_int (2 * ?t)"
    using assms by (simp add: field_simps)
  then have "Math_round ((rat_of_int ?c / rat_of_int ?t) * 100) =
      \<lfloor>rat_of_int (200 * ?c + ?t) / rat_of_int (2 * ?t)\<rfloor>"
    by (simp add: Math_round_def)
  also have "\<dots> = (200 * ?c + ?t) div (2 * ?t)"
    by (rule floor_divide_of_int_eq)
  finally show ?thesis
    using assms by (simp add: calculateProgress_def)
qed

section \<open>Priority\<close>

text \<open>
  Claim C5: the priority is High for a project on hold; otherwise Medium for a project
  in progress whose progress is below 30; otherwise Low for a project in planning;
  otherwise Normal. The bound is strict: a project in progress with 3 of 10 tasks
  completed has progress 30 and priority Normal.
\<close>

theorem getPriority_rules:
  "(status p = Some ''OnHold'' \<longrightarrow> getPriority p = ''High'') \<and>
   (status p = Some ''InProgress'' \<and> calculateProgress p < 30 \<longrightarrow> getPriority p = ''Medium'') \<and>
   (status p = Some ''InProgress'' \<and> 30 \<le> calculateProgress p \<longrightarrow> getPriority p = ''Normal'') \<and>
   (status p = Some ''Planning'' \<longrightarrow> getPriority p = ''Low'') \<and>
   (status p \<noteq> Some ''OnHold'' \<and> status p \<noteq> Some ''InProgress'' \<and>
      status p \<noteq> Some ''Planning'' \<longrightarrow> getPriority p = ''Normal'') \<and>
   (status p = Some ''InProgress'' \<and> taskCount p = 10 \<and> completedTaskCount p = 3 \<longrightarrow>
      calculateProgress p = 30 \<and> getPriority p = ''Normal'')"
proof -
  have boundary: "calculateProgress p = 30"
    if "taskCount p = 10" "completedTaskCount p = 3"
    using that calculateProgress_div [of p] by simp
  show ?thesis
    using boundary by (auto simp add: getPriority_def Let_def)
qed

theorem getPriority_rules_witness:
  "status on_hold = Some ''OnHold'' \<and> getPriority on_hold = ''High'' \<and>
   status early = Some ''InProgress'' \<and> calculateProgress early < 30 \<and>
     getPriority early = ''Medium'' \<and>
   status alpha = Some ''Planning'' \<and> getPriority alpha = ''Low'' \<and>
   status blank \<noteq> Some ''OnHold'' \<and> status blank \<noteq> Some ''InProgress'' \<and>
     status blank \<noteq> Some ''Planning'' \<and> getPriority blank = ''Normal'' \<and>
   status beta = Some ''InProgress'' \<and> taskCount beta = 10 \<and> completedTaskCount beta = 3 \<and>
     calculateProgress beta = 30 \<and> getPriority beta = ''Normal''"
proof -
  have early: "calculateProgress early < 30"
    using calculateProgress_div [of early] by (simp add: early_def blank_def)
  show ?thesis
    using getPriority_rules [of on_hold] getPriority_rules [of early]
      getPriority_rules [of alpha] getPriority_rules [of blank] getPriority_rules [of beta]
      early
    by (simp add: on_hold_def early_def alpha_def beta_def blank_def)
qed

section \<open>Completion message\<close>

lemma floor_days_Num: "floor_days (Num d) = Num (d div 86400000)"
proof -
  have "rat_of_int d / (1000 * 60 * 60 * 24) = rat_of_int d / rat_of_int 86400000"
    by simp
  then have "\<lfloor>rat_of_int d / (1000 * 60 * 60 * 24)\<rfloor> = d div 86400000"
    by (simp only: floor_divide_of_int_eq)
  then show ?thesis by simp
qed

lemma getDaysUntilEnd_Num:
  assumes "endDate = Some s" "s \<noteq> []" "gt s = Num e"
  shows "getDaysUntilEnd gt now endDate = Some (Num ((e - now) div 86400000))"
  using assms by (simp add: getDaysUntilEnd_def floor_days_Num del: floor_days.simps)

lemma whole_days:
  fixes d :: int
  shows "(d div 86400000) * 86400000 \<le> d \<and> d < (d div 86400000 + 1) * 86400000"
proof -
  define q r where "q = d div 86400000" and "r = d mod 86400000"
  have "0 \<le> r" "r < 86400000"
    by (simp_all add: r_def)
  moreover have "d = q * 86400000 + r"
    by (simp add: q_def r_def)
  ultimately have "q * 86400000 \<le> d \<and> d < (q + 1) * 86400000"
    by (simp add: algebra_simps)
  then show ?thesis by (simp add: q_def)
qed

text \<open>
  Claim C6: the completion message is "Completed" when the progress is 100; otherwise,
  with a day count until the end date, "Overdue" below 0, the due-soon message with the
  count below 7 and the due-in message with the count below 30; in every other case,
  no end date among them, the progress with "% complete". The day count is the floor
  of the difference between the end date and the current time in whole days, and null
  when there is no end date.
\<close>

theorem getCompletionMessage_rules:
  "(calculateProgress p = 100 \<longrightarrow>
      getCompletionMessage gt now p = check_mark @ '' Completed'') \<and>
   (calculateProgress p \<noteq> 100 \<longrightarrow>
      (getDaysUntilEnd gt now (estimatedEndDate p) = Some (Num k) \<and> k < 0 \<longrightarrow>
         getCompletionMessage gt now p = warning_sign @ '' Overdue'') \<and>
      (getDaysUntilEnd gt now (estimatedEndDate p) = Some (Num k) \<and> 0 \<le> k \<and> k < 7 \<longrightarrow>
         getCompletionMessage gt now p =
           alarm_clock @ '' Due in '' @ Number_toString k @ '' days'') \<and>
      (getDaysUntilEnd gt now (estimatedEndDate p) = Some (Num k) \<and> 7 \<le> k \<and> k < 30 \<longrightarrow>
         getCompletionMessage gt now p =
           calendar @ '' Due in '' @ Number_toString k @ '' days'') \<and>
      ((getDaysUntilEnd gt now (estimatedEndDate p) = Some (Num k) \<and> 30 \<le> k) \<or>
       getDaysUntilEnd gt now (estimatedEndDate p) = None \<or>
       getDaysUntilEnd gt now (estimatedEndDate p) = Some NaN \<longrightarrow>
         getCompletionMessage gt now p =
           construction_sign @ '' '' @ Number_toString (calculateProgress p) @ ''% complete'')) \<and>
   (estimatedEndDate p = None \<or> estimatedEndDate p = Some [] \<longrightarrow>
      getDaysUntilEnd gt now (estimatedEndDate p) = None) \<and>
   (estimatedEndDate p = Some s \<and> s \<noteq> [] \<and> gt s = Num e \<longrightarrow>
      getDaysUntilEnd gt now (estimatedEndDate p) = Some (Num ((e - now) div 86400000)) \<and>
      ((e - now) div 86400000) * 86400000 \<le> e - now \<and>
      e - now < ((e - now) div 86400000 + 1) * 86400000) \<and>
   (estimatedEndDate p = Some s \<and> s \<noteq> [] \<and> gt s = NaN \<longrightarrow>
      getDaysUntilEnd gt now (estimatedEndDate p) = Some NaN)"
proof (intro conjI impI)
  show "getCompletionMessage gt now p = check_mark @ '' Completed''"
    if "calculateProgress p = 100"
    using that by (simp add: getCompletionMessage_def Let_def)
  show "getCompletionMessage gt now p = warning_sign @ '' Overdue''"
    if "calculateProgress p \<noteq> 100"
      "getDaysUntilEnd gt now (estimatedEndDate p) = Some (Num k) \<and> k < 0"
    using that by (simp add: getCompletionMessage_def Let_def)
  show "getCompletionMessage gt now p =
      alarm_clock @ '' Due in '' @ Number_toString k @ '' days''"
    if "calculateProgress p \<noteq> 100"
      "getDaysUntilEnd gt now (estimatedEndDate p) = Some (Num k) \<and> 0 \<le> k \<and> k < 7"
    using that by (simp add: getCompletionMessage_def Let_def)
  show "getCompletionMessage gt now p =
      calendar @ '' Due in '' @ Number_toString k @ '' days''"
    if "calculateProgress p \<noteq> 100"
      "getDaysUntilEnd gt now (estimatedEndDate p) = Some (Num k) \<and> 7 \<le> k \<and> k < 30"
    using that by (simp add: getCompletionMessage_def Let_def)
  show "getCompletionMessage gt now p =
      construction_sign @ '' '' @ Number_toString (calculateProgress p) @ ''% complete''"
    if "calculateProgress p \<noteq> 100"
      "(getDaysUntilEnd gt now (estimatedEndDate p) = Some (Num k) \<and> 30 \<le> k) \<or>
       getDaysUntilEnd gt now (estimatedEndDate p) = None \<or>
       getDaysUntilEnd gt now (estimatedEndDate p) = Some NaN"
    using that by (auto simp add: getCompletionMessage_def Let_def)
  show "getDaysUntilEnd gt now (estimatedEndDate p) = None"
    if "estimatedEndDate p = None \<or> estimatedEndDate p = Some []"
    using that by (auto simp add: getDaysUntilEnd_def)
  assume d: "estimatedEndDate p = Some s \<and> s \<noteq> [] \<and> gt s = Num e"
  then show "getDaysUntilEnd gt now (estimatedEndDate p) = Some (Num ((e - now) div 86400000))"
    by (simp add: getDaysUntilEnd_Num)
  show "((e - now) div 86400000) * 86400000 \<le> e - now"
    using whole_days [of "e - now"] by simp
  show "e - now < ((e - now) div 86400000 + 1) * 86400000"
    using whole_days [of "e - now"] by simp
next
  assume "estimatedEndDate p = Some s \<and> s \<noteq> [] \<and> gt s = NaN"
  then show "getDaysUntilEnd gt now (estimatedEndDate p) = Some NaN"
    by (simp add: getDaysUntilEnd_def)
qed

lemma sample_progress:
  "calculateProgress due = 30" "calculateProgress beta = 30" "calculateProgress undated = 30"
  "calculateProgress finished = 100"
  using calculateProgress_div [of due] calculateProgress_div [of beta]
    calculateProgress_div [of undated] calculateProgress_div [of finished]
  by (simp_all add: due_def beta_def undated_def finished_def blank_def)

lemma sample_texts:
  "Number_toString 4 = ''4''" "Number_toString 20 = ''20''" "Number_toString 30 = ''30''"
  by code_simp+

theorem getCompletionMessage_rules_witness:
  "calculateProgress finished = 100 \<and>
   getCompletionMessage sample_getTime 0 finished = check_mark @ '' Completed'' \<and>
   calculateProgress due \<noteq> 100 \<and>
   getDaysUntilEnd sample_getTime 1740787200001 (estimatedEndDate due) = Some (Num (- 1)) \<and>
   getCompletionMessage sample_getTime 1740787200001 due = warning_sign @ '' Overdue'' \<and>
   getDaysUntilEnd sample_getTime 1740355201000 (estimatedEndDate due) = Some (Num 4) \<and>
   getCompletionMessage sample_getTime 1740355201000 due = alarm_clock @ '' Due in 4 days'' \<and>
   getDaysUntilEnd sample_getTime 1739059200000 (estimatedEndDate due) = Some (Num 20) \<and>
   getCompletionMessage sample_getTime 1739059200000 due = calendar @ '' Due in 20 days'' \<and>
   getDaysUntilEnd sample_getTime 1737331200000 (estimatedEndDate due) = Some (Num 40) \<and>
   getCompletionMessage sample_getTime 1737331200000 due =
     construction_sign @ '' 30% complete'' \<and>
   estimatedEndDate beta = None \<and>
   getDaysUntilEnd sample_getTime 0 (estimatedEndDate beta) = None \<and>
   getCompletionMessage sample_getTime 0 beta = construction_sign @ '' 30% complete'' \<and>
   estimatedEndDate undated = Some ''soon'' \<and> sample_getTime ''soon'' = NaN \<and>
   getDaysUntilEnd sample_getTime 0 (estimatedEndDate undated) = Some NaN \<and>
   getCompletionMessage sample_getTime 0 undated = construction_sign @ '' 30% complete''"
proof -
  have e: "estimatedEndDate due = Some ''2025-03-01''" "estimatedEndDate beta = None"
    "estimatedEndDate undated = Some ''soon''"
    by (simp_all add: due_def undated_def beta_def blank_def)
  have t: "sample_getTime ''2025-03-01'' = Num 1740787200000" "sample_getTime ''soon'' = NaN"
    by (simp_all add: sample_getTime_def)
  note r = getCompletionMessage_rules [where gt = sample_getTime and s = "''2025-03-01''"
      and e = 1740787200000 and p = due]
  have d1: "getDaysUntilEnd sample_getTime 1740787200001 (estimatedEndDate due) = Some (Num (- 1))"
    using r [of 1740787200001 0] e t by simp
  have d2: "getDaysUntilEnd sample_getTime 1740355201000 (estimatedEndDate due) = Some (Num 4)"
    using r [of 1740355201000 0] e t by simp
  have d3: "getDaysUntilEnd sample_getTime 1739059200000 (estimatedEndDate due) = Some (Num 20)"
    using r [of 1739059200000 0] e t by simp
  have d4: "getDaysUntilEnd sample_getTime 1737331200000 (estimatedEndDate due) = Some (Num 40)"
    using r [of 1737331200000 0] e t by simp
  have m0: "getCompletionMessage sample_getTime 0 finished = check_mark @ '' Completed''"
    using getCompletionMessage_rules [of finished sample_getTime 0] sample_progress by simp
  have m1: "getCompletionMessage sample_getTime 1740787200001 due = warning_sign @ '' Overdue''"
    using r [of 1740787200001 "- 1"] d1 sample_progress by simp
  have m2: "getCompletionMessage sample_getTime 1740355201000 due =
      alarm_clock @ '' Due in 4 days''"
    using r [of 1740355201000 4] d2 sample_progress sample_texts by simp
  have m3: "getCompletionMessage sample_getTime 1739059200000 due =
      calendar @ '' Due in 20 days''"
    using r [of 1739059200000 20] d3 sample_progress sample_texts by simp
  have m4: "getCompletionMessage sample_getTime 1737331200000 due =
      construction_sign @ '' 30% complete''"
    using r [of 1737331200000 40] d4 sample_progress sample_texts by simp
  have d5: "getDaysUntilEnd sample_getTime 0 (estimatedEndDate beta) = None"
    using getCompletionMessage_rules [of beta sample_getTime 0] e by simp
  have m5: "getCompletionMessage sample_getTime 0 beta = construction_sign @ '' 30% complete''"
    using getCompletionMessage_rules [of beta sample_getTime 0] d5 sample_progress sample_texts
    by simp
  have d6: "getDaysUntilEnd sample_getTime 0 (estimatedEndDate undated) = Some NaN"
    using getCompletionMessage_rules [where p = undated and gt = sample_getTime and now = 0
        and s = "''soon''"] e t
    by simp
  have m6: "getCompletionMessage sample_getTime 0 undated =
      construction_sign @ '' 30% complete''"
    using getCompletionMessage_rules [of undated sample_getTime 0] d6 sample_progress
      sample_texts
    by simp
  show ?thesis
    using e t d1 d2 d3 d4 d5 d6 m0 m1 m2 m3 m4 m5 m6 sample_progress by simp
qed

section \<open>The filter\<close>

lemma toLowerCase_Nil: "toLowerCase [] = []"
  by (simp add: toLowerCase_def)

lemma String_includes_iff: "String_includes t s \<longleftrightarrow> sublist s t"
  by (induction t) (simp_all add: sublist_Cons_right)

lemma String_includes_Nil: "String_includes t []"
  by (simp add: String_includes_iff)

lemma lowered_or_empty_text_of: "lowered_or_empty v = toLowerCase (text_of v)"
  by (cases v) (simp_all add: lowered_or_empty_def text_of_def toLowerCase_Nil)

lemma String_includes_spec:
  "String_includes (lowered_or_empty v) (toLowerCase s) = substring_ignoring_case s (text_of v)"
  by (simp add: String_includes_iff lowered_or_empty_text_of substring_ignoring_case_def
      sublist_def)

text \<open>
  Claim C3: the filter keeps, in their order, exactly the records that match in the
  words of the specification: the lowercased search term is a substring of the
  lowercased name, address or client information, a null field counting as the empty
  string, and the status filter is "all" or equals the status of the record.
\<close>

theorem filteredProjects_spec:
  "filteredProjects ps s f = filter (spec_matches s f) ps"
  unfolding filteredProjects_def spec_matches_def matchesSearch_def matchesStatus_def
    String_includes_spec ..

theorem filteredProjects_spec_witness:
  "filter (spec_matches ''ALP'' ''all'') [alpha, beta] = [alpha] \<and>
   filter (spec_matches [] ''InProgress'') [alpha, beta] = [beta] \<and>
   filter (spec_matches [] ''inprogress'') [alpha, beta] = []"
proof -
  have "filteredProjects [alpha, beta] ''ALP'' ''all'' = [alpha]"
    "filteredProjects [alpha, beta] [] ''InProgress'' = [beta]"
    "filteredProjects [alpha, beta] [] ''inprogress'' = []"
    by code_simp+
  then show ?thesis
    using filteredProjects_spec [of "[alpha, beta]" "''ALP''" "''all''"]
      filteredProjects_spec [of "[alpha, beta]" "[]" "''InProgress''"]
      filteredProjects_spec [of "[alpha, beta]" "[]" "''inprogress''"]
    by simp
qed

text \<open>
  Claim C10: with the empty search term and the status filter "all" the filter returns
  the record list as it is, a record whose text fields are all null included.
\<close>

theorem filteredProjects_identity:
  "filteredProjects ps [] ''all'' = ps \<and> filteredProjects [blank] [] ''all'' = [blank]"
proof -
  have "matchesSearch [] p \<and> matchesStatus ''all'' p" for p
    by (simp add: matchesSearch_def matchesStatus_def toLowerCase_Nil String_includes_Nil)
  then have "filteredProjects qs [] ''all'' = qs" for qs
    by (simp add: filteredProjects_def)
  then show ?thesis by simp
qed

section \<open>The sort order\<close>

lemma sort_total_Cons: "sort_total f (x # xs) = insert_total f x (sort_total f xs)"
  by (simp add: sort_total_def)

lemma sort_total_Nil: "sort_total f [] = []"
  by (simp add: sort_total_def)

lemma mset_insert_total: "mset (insert_total f x ys) = add_mset x (mset ys)"
  by (induction ys) simp_all

lemma mset_sort_total: "mset (sort_total f xs) = mset xs"
  by (induction xs) (simp_all add: sort_total_Nil sort_total_Cons mset_insert_total)

lemma set_sort_total: "set (sort_total f xs) = set xs"
  using mset_sort_total [of f xs] by (metis set_mset_mset)

lemma length_sort_total: "length (sort_total f xs) = length xs"
  using mset_sort_total [of f xs] by (metis size_mset)

lemma set_insert_total: "set (insert_total f x ys) = insert x (set ys)"
  using mset_insert_total [of f x ys] by (metis set_mset_mset set_mset_add_mset_insert)

lemma insert_total_cong:
  assumes "\<And>y. y \<in> set ys \<Longrightarrow> not_after f x y = not_after g x y"
  shows "insert_total f x ys = insert_total g x ys"
  using assms by (induction ys) simp_all

lemma sort_total_cong:
  assumes "\<And>a b. a \<in> set xs \<Longrightarrow> b \<in> set xs \<Longrightarrow> not_after f a b = not_after g a b"
  shows "sort_total f xs = sort_total g xs"
  using assms
proof (induction xs)
  case Nil
  then show ?case by (simp add: sort_total_Nil)
next
  case (Cons x xs)
  have "sort_total f xs = sort_total g xs"
    using Cons by simp
  moreover have "insert_total f x (sort_total g xs) = insert_total g x (sort_total g xs)"
    using Cons.prems by (intro insert_total_cong) (simp add: set_sort_total)
  ultimately show ?case by (simp add: sort_total_Cons)
qed

lemma sorted_insert_total:
  assumes total: "\<And>a b. not_after f a b \<or> not_after f b a"
    and trans: "\<And>a b c. not_after f a b \<Longrightarrow> not_after f b c \<Longrightarrow> not_after f a c"
    and "sorted_wrt (not_after f) ys"
  shows "sorted_wrt (not_after f) (insert_total f x ys)"
  using assms(3)
proof (induction ys)
  case Nil
  then show ?case by simp
next
  case (Cons y ys)
  show ?case
  proof (cases "not_after f x y")
    case True
    then have "\<forall>z\<in>set (y # ys). not_after f x z"
      using Cons.prems trans by auto
    with True Cons.prems show ?thesis by simp
  next
    case False
    then have "not_after f y x"
      using total by blast
    with False Cons show ?thesis
      by (auto simp add: set_insert_total)
  qed
qed

lemma sorted_sort_total:
  assumes "\<And>a b. not_after f a b \<or> not_after f b a"
    and "\<And>a b c. not_after f a b \<Longrightarrow> not_after f b c \<Longrightarrow> not_after f a c"
  shows "sorted_wrt (not_after f) (sort_total f xs)"
proof (induction xs)
  case Nil
  then show ?case by (simp add: sort_total_Nil)
next
  case (Cons x xs)
  then show ?case
    unfolding sort_total_Cons using assms by (intro sorted_insert_total)
qed

lemma filter_insert_total:
  assumes trans: "\<And>a b c. not_after f a b \<Longrightarrow> not_after f b c \<Longrightarrow> not_after f a c"
  shows "filter (\<lambda>y. not_after f k y \<and> not_after f y k) (insert_total f x ys) =
    filter (\<lambda>y. not_after f k y \<and> not_after f y k) (x # ys)"
proof (induction ys)
  case Nil
  then show ?case by simp
next
  case (Cons y ys)
  show ?case
  proof (cases "not_after f x y")
    case True
    then show ?thesis by simp
  next
    case False
    have "\<not> (not_after f x k \<and> not_after f k y)"
      using False trans by blast
    with False Cons show ?thesis by auto
  qed
qed

lemma filter_sort_total:
  assumes "\<And>a b c. not_after f a b \<Longrightarrow> not_after f b c \<Longrightarrow> not_after f a c"
  shows "filter (\<lambda>y. not_after f k y \<and> not_after f y k) (sort_total f xs) =
    filter (\<lambda>y. not_after f k y \<and> not_after f y k) xs"
proof (induction xs)
  case Nil
  then show ?case by (simp add: sort_total_Nil)
next
  case (Cons x xs)
  have "filter (\<lambda>y. not_after f k y \<and> not_after f y k) (sort_total f (x # xs)) =
      filter (\<lambda>y. not_after f k y \<and> not_after f y k) (x # sort_total f xs)"
    unfolding sort_total_Cons using assms by (rule filter_insert_total)
  with Cons show ?case by simp
qed

lemma sort_total_stable_ascending:
  assumes agree: "\<And>a b. a \<in> set xs \<Longrightarrow> b \<in> set xs \<Longrightarrow> not_after f a b = le a b"
    and total: "\<And>a b. le a b \<or> le b a"
    and trans: "\<And>a b c. le a b \<Longrightarrow> le b c \<Longrightarrow> le a c"
  shows "stable_ascending le xs (sort_total f xs)"
proof -
  define g :: "'a \<Rightarrow> 'a \<Rightarrow> rat number" where "g = (\<lambda>a b. if le a b then Num 0 else Num 1)"
  have g: "not_after g = le"
    by (intro ext) (simp add: not_after_def keeps_before_def g_def)
  have "sort_total f xs = sort_total g xs"
    using agree by (intro sort_total_cong) (simp add: g)
  moreover have "sorted_wrt (not_after g) (sort_total g xs)"
  proof (rule sorted_sort_total)
    show "not_after g a b \<or> not_after g b a" for a b
      unfolding g by (rule total)
    show "not_after g a c" if "not_after g a b" "not_after g b c" for a b c
      using that unfolding g by (rule trans)
  qed
  moreover have "filter (\<lambda>y. not_after g k y \<and> not_after g y k) (sort_total g xs) =
      filter (\<lambda>y. not_after g k y \<and> not_after g y k) xs" for k
  proof (rule filter_sort_total)
    show "not_after g a c" if "not_after g a b" "not_after g b c" for a b c
      using that unfolding g by (rule trans)
  qed
  ultimately show ?thesis
    by (simp add: stable_ascending_def mset_sort_total g)
qed

lemma codeUnitCompare_total: "codeUnitCompare a b \<le> 0 \<or> codeUnitCompare b a \<le> 0"
  by (induction a b rule: codeUnitCompare.induct) auto

lemma codeUnitCompare_trans:
  "codeUnitCompare a b \<le> 0 \<Longrightarrow> codeUnitCompare b c \<le> 0 \<Longrightarrow> codeUnitCompare a c \<le> 0"
proof (induction a arbitrary: b c)
  case Nil
  then show ?case by (cases c) simp_all
next
  case (Cons x xs)
  from Cons.prems obtain y ys where b: "b = y # ys"
    by (cases b) simp_all
  from Cons.prems b obtain z zs where c: "c = z # zs"
    by (cases c) (simp_all split: if_splits)
  show ?case
    using Cons.prems Cons.IH [of ys zs] unfolding b c
    by (auto split: if_splits)
qed

lemma consistent_codeUnitCompare: "consistent codeUnitCompare"
  unfolding consistent_def using codeUnitCompare_total codeUnitCompare_trans by blast

lemma sort_by_text:
  assumes "consistent lc"
    and "\<And>a b. not_after f a b = (lc (key a) (key b) \<le> 0)"
  shows "stable_ascending (\<lambda>a b. lc (key a) (key b) \<le> 0) xs (sort_total f xs)"
proof (rule sort_total_stable_ascending)
  show "not_after f a b = (lc (key a) (key b) \<le> 0)" for a b
    by (rule assms(2))
  show "lc (key a) (key b) \<le> 0 \<or> lc (key b) (key a) \<le> 0" for a b
    using assms(1) unfolding consistent_def by blast
  show "lc (key a) (key c) \<le> 0"
    if "lc (key a) (key b) \<le> 0" "lc (key b) (key c) \<le> 0" for a b c
    using assms(1) that unfolding consistent_def by blast
qed

lemma sort_by_number:
  fixes key :: "'a \<Rightarrow> 'b::linorder"
  assumes "\<And>a b. a \<in> set xs \<Longrightarrow> b \<in> set xs \<Longrightarrow> not_after f a b = (key a \<le> key b)"
  shows "stable_ascending (\<lambda>a b. key a \<le> key b) xs (sort_total f xs)"
proof (rule sort_total_stable_ascending)
  show "not_after f a b = (key a \<le> key b)" if "a \<in> set xs" "b \<in> set xs" for a b
    using that by (rule assms)
  show "key a \<le> key b \<or> key b \<le> key a" for a b
    by (rule linear)
  show "key a \<le> key c" if "key a \<le> key b" "key b \<le> key c" for a b c
    using that by (rule order_trans)
qed

lemma insert_sorted_total:
  assumes "\<And>a b. f a b = Inr (g a b)"
  shows "insert_sorted f x ys = Inr (insert_total g x ys)"
  by (induction ys) (simp_all add: assms not_after_def)

lemma Array_sort_total:
  assumes "\<And>a b. f a b = Inr (g a b)"
  shows "Array_sort f xs = Inr (sort_total g xs)"
proof (induction xs)
  case Nil
  then show ?case by (simp add: sort_total_Nil)
next
  case (Cons x xs)
  then show ?case
    using insert_sorted_total [of f g, OF assms] by (simp add: sort_total_Cons)
qed

lemma length_insert_sorted:
  "insert_sorted f x ys = Inr zs \<Longrightarrow> length zs = Suc (length ys)"
  by (induction ys arbitrary: zs) (auto split: sum.splits if_splits)

lemma length_Array_sort: "Array_sort f xs = Inr ys \<Longrightarrow> length ys = length xs"
  by (induction xs arbitrary: ys) (auto split: sum.splits dest: length_insert_sorted)

text \<open>
  A comparison that throws on every call: a list of fewer than two records comes back
  as it is, any longer list ends the sort with the exception.
\<close>

lemma Array_sort_throws:
  assumes "\<And>a b. f a b = Inl e"
  shows "Array_sort f xs = (if length xs \<le> 1 then Inr xs else Inl e)"
proof (induction xs)
  case Nil
  then show ?case by simp
next
  case (Cons x xs)
  show ?case
  proof (cases xs)
    case Nil
    then show ?thesis by simp
  next
    case outer: (Cons y ys)
    show ?thesis
    proof (cases ys)
      case Nil
      with outer show ?thesis by (simp add: assms)
    next
      case (Cons z zs)
      with outer Cons.IH show ?thesis by simp
    qed
  qed
qed

lemma compareProjects_progress:
  "compareProjects lc gt ''progress'' a b = Inl (ReferenceError ''calculateProgress'')"
  by (simp add: compareProjects_def calculateProgress_in_sort_def)

lemma compareProjects_value:
  assumes "k \<noteq> ''progress''"
  shows "compareProjects lc gt k a b = Inr (projr (compareProjects lc gt k a b))"
  using assms by (simp add: compareProjects_def)

lemma sortedProjects_total:
  assumes "k \<noteq> ''progress''"
  shows "sortedProjects lc gt k ps =
    Inr (sort_total (\<lambda>a b. projr (compareProjects lc gt k a b)) ps)"
  unfolding sortedProjects_def
  by (rule Array_sort_total) (rule compareProjects_value [OF assms])

text \<open>
  The four sort keys whose comparison does not throw: the sorted list holds the
  records of the filtered list, in ascending order of the locale comparison of the
  names or of the statuses, a null field counting as the empty string; in descending
  order of the capacity, a missing capacity counting as 0; or in ascending order of
  the start time; and records that tie keep their input order. The locale comparison
  is taken to be consistent and, for the order by date, the start dates to parse.
\<close>

lemma sortedProjects_order:
  "(consistent lc \<longrightarrow>
      (\<exists>ys. sortedProjects lc gt ''name'' ps = Inr ys \<and>
         stable_ascending
           (\<lambda>a b. lc (text_of (projectName a)) (text_of (projectName b)) \<le> 0) ps ys) \<and>
      (\<exists>ys. sortedProjects lc gt ''status'' ps = Inr ys \<and>
         stable_ascending
           (\<lambda>a b. lc (text_of (status a)) (text_of (status b)) \<le> 0) ps ys)) \<and>
   (\<exists>ys. sortedProjects lc gt ''capacity'' ps = Inr ys \<and>
      stable_ascending
        (\<lambda>a b. missing_as_0 (totalCapacityKw b) \<le> missing_as_0 (totalCapacityKw a)) ps ys) \<and>
   ((\<forall>p\<in>set ps. \<exists>t. gt (startDate p) = Num t) \<longrightarrow>
      (\<exists>ys. sortedProjects lc gt ''startDate'' ps = Inr ys \<and>
         stable_ascending (\<lambda>a b. time_of gt a \<le> time_of gt b) ps ys))"
proof (intro conjI impI)
  assume c: "consistent lc"
  have "stable_ascending
      (\<lambda>a b. lc (text_of (projectName a)) (text_of (projectName b)) \<le> 0) ps
      (sort_total (\<lambda>a b. projr (compareProjects lc gt ''name'' a b)) ps)"
    using c
    by (rule sort_by_text)
      (simp add: not_after_def keeps_before_def compareProjects_def or_empty_def text_of_def)
  then show "\<exists>ys. sortedProjects lc gt ''name'' ps = Inr ys \<and>
      stable_ascending
        (\<lambda>a b. lc (text_of (projectName a)) (text_of (projectName b)) \<le> 0) ps ys"
    by (simp add: sortedProjects_total)
  have "stable_ascending
      (\<lambda>a b. lc (text_of (status a)) (text_of (status b)) \<le> 0) ps
      (sort_total (\<lambda>a b. projr (compareProjects lc gt ''status'' a b)) ps)"
    using c
    by (rule sort_by_text)
      (simp add: not_after_def keeps_before_def compareProjects_def or_empty_def text_of_def)
  then show "\<exists>ys. sortedProjects lc gt ''status'' ps = Inr ys \<and>
      stable_ascending (\<lambda>a b. lc (text_of (status a)) (text_of (status b)) \<le> 0) ps ys"
    by (simp add: sortedProjects_total)
next
  have "stable_ascending
      (\<lambda>a b. - missing_as_0 (totalCapacityKw a) \<le> - missing_as_0 (totalCapacityKw b)) ps
      (sort_total (\<lambda>a b. projr (compareProjects lc gt ''capacity'' a b)) ps)"
    by (rule sort_by_number)
      (simp add: not_after_def keeps_before_def compareProjects_def or_zero_def
        missing_as_0_def)
  then show "\<exists>ys. sortedProjects lc gt ''capacity'' ps = Inr ys \<and>
      stable_ascending
        (\<lambda>a b. missing_as_0 (totalCapacityKw b) \<le> missing_as_0 (totalCapacityKw a)) ps ys"
    by (simp add: sortedProjects_total)
next
  assume v: "\<forall>p\<in>set ps. \<exists>t. gt (startDate p) = Num t"
  have "stable_ascending (\<lambda>a b. time_of gt a \<le> time_of gt b) ps
      (sort_total (\<lambda>a b. projr (compareProjects lc gt ''startDate'' a b)) ps)"
  proof (rule sort_by_number)
    fix a b
    assume "a \<in> set ps" "b \<in> set ps"
    with v obtain ta tb where "gt (startDate a) = Num ta" "gt (startDate b) = Num tb"
      by blast
    then show "not_after (\<lambda>a b. projr (compareProjects lc gt ''startDate'' a b)) a b =
        (time_of gt a \<le> time_of gt b)"
      by (simp add: not_after_def keeps_before_def compareProjects_def time_of_def)
  qed
  then show "\<exists>ys. sortedProjects lc gt ''startDate'' ps = Inr ys \<and>
      stable_ascending (\<lambda>a b. time_of gt a \<le> time_of gt b) ps ys"
    by (simp add: sortedProjects_total)
qed

lemma sortedProjects_examples:
  "sortedProjects codeUnitCompare sample_getTime ''name'' [small_plant, on_hold, large_plant] =
     Inr [small_plant, large_plant, on_hold]"
  "sortedProjects codeUnitCompare sample_getTime ''status'' [small_plant, on_hold, large_plant] =
     Inr [large_plant, on_hold, small_plant]"
  "sortedProjects codeUnitCompare sample_getTime ''capacity'' [small_plant, on_hold, large_plant] =
     Inr [large_plant, small_plant, on_hold]"
  "sortedProjects codeUnitCompare sample_getTime ''startDate''
     [small_plant, on_hold, large_plant] = Inr [on_hold, large_plant, small_plant]"
  by code_simp+

text \<open>
  Claim C4, where the code departs from it: with the sort key "progress" the
  comparison calls \<open>calculateProgress\<close> before the component has declared it, so the
  sort of two or more records throws and no list in descending order of the progress
  is derived. Fewer than two records are never compared and come back as they are.
\<close>

theorem sortedProjects_progress_throws:
  "(length ps \<le> 1 \<longrightarrow> sortedProjects lc gt ''progress'' ps = Inr ps) \<and>
   (2 \<le> length ps \<longrightarrow>
      sortedProjects lc gt ''progress'' ps = Inl (ReferenceError ''calculateProgress''))"
  unfolding sortedProjects_def
  using Array_sort_throws [of "compareProjects lc gt ''progress''"
      "ReferenceError ''calculateProgress''" ps, OF compareProjects_progress]
  by simp

theorem sortedProjects_progress_throws_witness:
  "(2::nat) \<le> length [alpha, beta] \<and>
   sortedProjects codeUnitCompare sample_getTime ''progress'' [alpha, beta] =
     Inl (ReferenceError ''calculateProgress'') \<and>
   length [beta] \<le> (1::nat) \<and>
   sortedProjects codeUnitCompare sample_getTime ''progress'' [beta] = Inr [beta]"
  using sortedProjects_progress_throws [of "[alpha, beta]" codeUnitCompare sample_getTime]
    sortedProjects_progress_throws [of "[beta]" codeUnitCompare sample_getTime]
  by simp

section \<open>Pages\<close>

lemma totalPages_div: "totalPages xs = (int (length xs) + 8) div 9"
proof -
  have "rat_of_nat (length xs) / rat_of_nat itemsPerPage =
      rat_of_int (int (length xs)) / rat_of_int 9"
    by (simp add: itemsPerPage_def)
  then have "totalPages xs = \<lceil>rat_of_int (int (length xs)) / rat_of_int 9\<rceil>"
    by (simp only: totalPages_def Math_ceil_def)
  also have "\<dots> = - (- int (length xs) div 9)"
    by (rule ceiling_divide_eq_div)
  also have "\<dots> = (int (length xs) + 8) div 9"
    by presburger
  finally show ?thesis .
qed

lemma totalPages_covers:
  "int (length xs) \<le> 9 * totalPages xs \<and> 9 * (totalPages xs - 1) < int (length xs)"
  unfolding totalPages_div by presburger

lemma totalPages_nonneg: "0 \<le> totalPages xs"
  unfolding totalPages_div by presburger

lemma slice_take_drop:
  assumes "0 \<le> a" "a \<le> b"
  shows "slice xs a b = take (nat (b - a)) (drop (nat a) xs)"
proof (cases "a \<le> int (length xs)")
  case True
  then have "slice xs a b = take (nat (min b (int (length xs)) - a)) (drop (nat a) xs)"
    using assms by (simp add: slice_def Let_def min_def)
  also have "\<dots> = take (nat (b - a)) (drop (nat a) xs)"
  proof (cases "b \<le> int (length xs)")
    case True
    then show ?thesis by (simp add: min_def)
  next
    case False
    with \<open>a \<le> int (length xs)\<close> assms
    have "length (drop (nat a) xs) \<le> nat (min b (int (length xs)) - a)"
      and "length (drop (nat a) xs) \<le> nat (b - a)"
      by (simp_all add: min_def)
    then show ?thesis by simp
  qed
  finally show ?thesis .
next
  case False
  then have "slice xs a b = []"
    using assms by (simp add: slice_def Let_def min_def)
  moreover have "drop (nat a) xs = []"
    using False by simp
  ultimately show ?thesis by simp
qed

lemma paginatedProjects_take_drop:
  assumes "1 \<le> p"
  shows "paginatedProjects xs p = take 9 (drop (9 * nat (p - 1)) xs)"
proof -
  have "paginatedProjects xs p = take (nat (p * 9 - (p - 1) * 9)) (drop (nat ((p - 1) * 9)) xs)"
    unfolding paginatedProjects_def itemsPerPage_def using assms
    by (simp add: slice_take_drop)
  moreover have "nat (p * 9 - (p - 1) * 9) = 9"
    by (simp add: algebra_simps)
  moreover have "nat ((p - 1) * 9) = 9 * nat (p - 1)"
    using assms by (simp add: nat_mult_distrib)
  ultimately show ?thesis by simp
qed

lemma concat_pages:
  "concat (map (\<lambda>i. take m (drop (m * i) xs)) [0..<k]) = take (m * k) xs"
proof (induction k)
  case 0
  then show ?case by simp
next
  case (Suc k)
  have "take (m * Suc k) xs = take (m * k + m) xs"
    by (simp add: add.commute)
  also have "\<dots> = take (m * k) xs @ take m (drop (m * k) xs)"
    by (rule take_add)
  finally show ?case
    using Suc by simp
qed

lemma page_numbers_upto: "map (\<lambda>i. int i + 1) [0..<n] = [1..int n]"
proof (induction n)
  case 0
  then show ?case by simp
next
  case (Suc n)
  have "[1..int (Suc n)] = [1..int n] @ [int n + 1]"
    using upto_rec2 [of 1 "int n + 1"] by (simp add: add.commute)
  with Suc show ?case by simp
qed

lemma pages_concat: "concat (map (paginatedProjects xs) (pageNumbers xs)) = xs"
proof -
  let ?T = "nat (totalPages xs)"
  have "map (paginatedProjects xs) (pageNumbers xs) =
      map (\<lambda>i. take 9 (drop (9 * i) xs)) [0..<?T]"
    by (simp add: pageNumbers_def paginatedProjects_take_drop)
  then have "concat (map (paginatedProjects xs) (pageNumbers xs)) = take (9 * ?T) xs"
    by (simp only: concat_pages)
  moreover have "length xs \<le> 9 * ?T"
    using totalPages_covers [of xs] totalPages_nonneg [of xs] by linarith
  ultimately show ?thesis by simp
qed

text \<open>
  Claim C2: with the page size 9, the number of pages is the ceiling of the length
  over 9, the least number of pages that holds the list; page \<open>p\<close>, for \<open>p\<close> from 1, is
  the part of the list from index \<open>(p - 1) * 9\<close> up to \<open>p * 9\<close>, of at most 9 records; the
  pages 1 to \<open>totalPages\<close> in a row are the whole list, so their lengths add up to its
  length; and 10 records make 2 pages, the second of 1 record.
\<close>

theorem pagination:
  "totalPages xs = \<lceil>rat_of_nat (length xs) / 9\<rceil> \<and>
   int (length xs) \<le> 9 * totalPages xs \<and> 9 * (totalPages xs - 1) < int (length xs) \<and>
   (1 \<le> p \<longrightarrow> paginatedProjects xs p = take 9 (drop (9 * nat (p - 1)) xs) \<and>
      length (paginatedProjects xs p) \<le> 9) \<and>
   concat (map (paginatedProjects xs) (pageNumbers xs)) = xs \<and>
   pageNumbers xs = [1..totalPages xs] \<and>
   (\<Sum>q\<leftarrow>pageNumbers xs. length (paginatedProjects xs q)) = length xs \<and>
   (length xs = 10 \<longrightarrow> totalPages xs = 2 \<and> length (paginatedProjects xs 2) = 1)"
proof (intro conjI impI)
  show "totalPages xs = \<lceil>rat_of_nat (length xs) / 9\<rceil>"
    by (simp add: totalPages_def Math_ceil_def itemsPerPage_def)
  show "int (length xs) \<le> 9 * totalPages xs" "9 * (totalPages xs - 1) < int (length xs)"
    using totalPages_covers [of xs] by simp_all
  show "concat (map (paginatedProjects xs) (pageNumbers xs)) = xs"
    by (rule pages_concat)
  show "pageNumbers xs = [1..totalPages xs]"
    using totalPages_nonneg [of xs] by (simp add: pageNumbers_def page_numbers_upto)
  have "length (concat (map (paginatedProjects xs) (pageNumbers xs))) = length xs"
    by (simp only: pages_concat)
  then show "(\<Sum>q\<leftarrow>pageNumbers xs. length (paginatedProjects xs q)) = length xs"
    by (simp add: length_concat comp_def)
next
  assume "1 \<le> p"
  then show "paginatedProjects xs p = take 9 (drop (9 * nat (p - 1)) xs)"
    by (rule paginatedProjects_take_drop)
  then show "length (paginatedProjects xs p) \<le> 9" by simp
next
  assume n: "length xs = 10"
  then show "totalPages xs = 2" by (simp add: totalPages_div)
  show "length (paginatedProjects xs 2) = 1"
    using n by (simp add: paginatedProjects_take_drop)
qed

theorem pagination_witness:
  "(1::int) \<le> 2 \<and> paginatedProjects ''abcdefghij'' 2 = ''j'' \<and>
   paginatedProjects ''abcdefghij'' 1 = ''abcdefghi'' \<and>
   length ''abcdefghij'' = 10 \<and> totalPages ''abcdefghij'' = 2 \<and>
   length (paginatedProjects ''abcdefghij'' 2) = 1"
  using pagination [of "''abcdefghij''" 2] pagination [of "''abcdefghij''" 1]
  by simp

section \<open>The current page\<close>

lemma derived_page: "derived lc gt (st\<lparr>currentPage := p\<rparr>) = derived lc gt st"
  by (simp add: derived_def)

lemma length_derived:
  assumes "derived lc gt st = Inr l"
  shows "length l = length (filteredProjects (projects st) (searchTerm st) (statusFilter st))"
  using assms unfolding derived_def sortedProjects_def by (rule length_Array_sort)

lemma totalPages_length: "length xs = length ys \<Longrightarrow> totalPages xs = totalPages ys"
  by (simp add: totalPages_def)

lemma totalPages_positive: "1 \<le> totalPages xs \<longleftrightarrow> xs \<noteq> []"
proof -
  have "1 \<le> (int (length xs) + 8) div 9 \<longleftrightarrow> 1 \<le> int (length xs)"
    by presburger
  then show ?thesis
    by (cases xs) (simp_all add: totalPages_div)
qed

lemma totalPages_controls:
  assumes "itemsPerPage < length xs"
  shows "2 \<le> totalPages xs"
proof -
  have "10 \<le> int (length xs)"
    using assms by (simp add: itemsPerPage_def)
  then have "2 \<le> (int (length xs) + 8) div 9"
    by presburger
  then show ?thesis by (simp add: totalPages_div)
qed

text \<open>What a step that ends on the screen has done, event by event.\<close>

lemma step_rendered:
  assumes "step lc gt e st = Some (Inr st')"
  shows "\<exists>l l'. derived lc gt st = Inr l \<and> derived lc gt st' = Inr l'"
  using assms
  by (cases e) (auto simp add: step_def rendered_def Let_def split: sum.splits if_splits)

lemma step_Next:
  assumes "step lc gt Next st = Some (Inr st')"
  shows "\<exists>l. derived lc gt st = Inr l \<and> itemsPerPage < length l \<and>
    st' = st\<lparr>currentPage := min (currentPage st + 1) (totalPages l)\<rparr>"
  using assms
  by (auto simp add: step_def rendered_def Let_def split: sum.splits if_splits)

lemma step_Previous:
  assumes "step lc gt Previous st = Some (Inr st')"
  shows "\<exists>l. derived lc gt st = Inr l \<and> st' = st\<lparr>currentPage := max (currentPage st - 1) 1\<rparr>"
  using assms
  by (auto simp add: step_def rendered_def Let_def split: sum.splits if_splits)

lemma step_PageButton:
  assumes "step lc gt (PageButton i) st = Some (Inr st')"
  shows "\<exists>l. derived lc gt st = Inr l \<and> i < nat (totalPages l) \<and>
    st' = st\<lparr>currentPage := int i + 1\<rparr>"
  using assms
  by (auto simp add: step_def rendered_def Let_def split: sum.splits if_splits)

lemma step_SetSortBy:
  assumes "step lc gt (SetSortBy k) st = Some (Inr st')"
  shows "\<exists>l l'. derived lc gt st = Inr l \<and> derived lc gt st' = Inr l' \<and>
    length l' = length l \<and> currentPage st' = currentPage st"
proof -
  from assms obtain l l' where d: "derived lc gt st = Inr l" "derived lc gt st' = Inr l'"
    using step_rendered by blast
  from assms d have st': "st' = st\<lparr>sortBy := k\<rparr>"
    by (auto simp add: step_def rendered_def Let_def split: sum.splits)
  have "length l' = length l"
    using length_derived [OF d(1)] length_derived [OF d(2)] st' by simp
  with d st' show ?thesis by simp
qed

lemma step_page_positive:
  assumes "step lc gt e st = Some (Inr st')" "1 \<le> currentPage st"
  shows "1 \<le> currentPage st'"
proof (cases e)
  case Next
  with assms(1) have "step lc gt Next st = Some (Inr st')"
    by simp
  from step_Next [OF this] obtain l where "derived lc gt st = Inr l"
    and "itemsPerPage < length l"
    and "st' = st\<lparr>currentPage := min (currentPage st + 1) (totalPages l)\<rparr>"
    by blast
  with totalPages_controls [of l] assms(2) show ?thesis by simp
qed (use assms in \<open>auto simp add: step_def rendered_def Let_def page_reset_effect_def
    split: sum.splits if_splits\<close>)

lemma step_resets:
  assumes "step lc gt e st = Some (Inr st')" "changes_filter e st"
  shows "currentPage st' = 1"
  using assms
  by (cases e)
    (auto simp add: step_def rendered_def Let_def page_reset_effect_def
      split: sum.splits if_splits)

lemma step_restores_range:
  assumes "step lc gt e st = Some (Inr st')" "restores_range e" "1 \<le> currentPage st"
  shows "page_in_range lc gt st'"
proof (cases e)
  case Next
  with assms(1) obtain l where l: "derived lc gt st = Inr l" "itemsPerPage < length l"
    and st': "st' = st\<lparr>currentPage := min (currentPage st + 1) (totalPages l)\<rparr>"
    using step_Next by blast
  have "derived lc gt st' = Inr l"
    using l(1) st' by (simp add: derived_page)
  with totalPages_controls [OF l(2)] assms(3) st' show ?thesis
    by (simp add: page_in_range_def)
next
  case (PageButton i)
  with assms(1) obtain l where l: "derived lc gt st = Inr l" "i < nat (totalPages l)"
    and st': "st' = st\<lparr>currentPage := int i + 1\<rparr>"
    using step_PageButton by blast
  have "derived lc gt st' = Inr l"
    using l(1) st' by (simp add: derived_page)
  with l(2) st' show ?thesis
    by (simp add: page_in_range_def)
qed (use assms(2) in simp_all)

lemma step_keeps_range:
  assumes "step lc gt e st = Some (Inr st')" "keeps_range e" "page_in_range lc gt st"
  shows "page_in_range lc gt st'"
proof (cases e)
  case Previous
  with assms(1) obtain l where l: "derived lc gt st = Inr l"
    and st': "st' = st\<lparr>currentPage := max (currentPage st - 1) 1\<rparr>"
    using step_Previous by blast
  have "derived lc gt st' = Inr l"
    using l st' by (simp add: derived_page)
  with l assms(3) st' show ?thesis
    by (simp add: page_in_range_def)
next
  case (SetSortBy k)
  with assms(1) obtain l l' where "derived lc gt st = Inr l" "derived lc gt st' = Inr l'"
    "length l' = length l" "currentPage st' = currentPage st"
    using step_SetSortBy by blast
  with assms(3) totalPages_length [of l' l] show ?thesis
    by (simp add: page_in_range_def)
qed (use assms(2) in simp_all)

lemma step_sort_key:
  assumes "k \<noteq> ''progress''" "derived lc gt st = Inr l"
  shows "step lc gt (SetSortBy k) st = Some (Inr (st\<lparr>sortBy := k\<rparr>))"
  using assms
  by (simp add: step_def rendered_def Let_def derived_def sortedProjects_total)

text \<open>
  Claim C7, as the code has it, for every event after which the list is on the screen:
  no event takes the page below 1; an event that changes the search term, the status
  filter or the view mode resets the page to 1, which lies within the pages exactly
  when the newly derived list is not empty; Next and a page button put the page
  within 1 and \<open>totalPages\<close>; Previous and a change of the sort key keep a page that
  lies within them there; and a change to a sort key other than "progress" does put
  the list on the screen.
\<close>

theorem page_after_event:
  "(step lc gt e st = Some (Inr st') \<longrightarrow>
      (1 \<le> currentPage st \<longrightarrow> 1 \<le> currentPage st') \<and>
      (changes_filter e st \<longrightarrow>
         currentPage st' = 1 \<and>
         (page_in_range lc gt st' \<longleftrightarrow> derived lc gt st' \<noteq> Inr [])) \<and>
      (restores_range e \<and> 1 \<le> currentPage st \<longrightarrow> page_in_range lc gt st') \<and>
      (keeps_range e \<and> page_in_range lc gt st \<longrightarrow> page_in_range lc gt st')) \<and>
   (k \<noteq> ''progress'' \<and> derived lc gt st = Inr l \<longrightarrow>
      step lc gt (SetSortBy k) st = Some (Inr (st\<lparr>sortBy := k\<rparr>)))"
proof (intro impI conjI)
  show "step lc gt (SetSortBy k) st = Some (Inr (st\<lparr>sortBy := k\<rparr>))"
    if "k \<noteq> ''progress'' \<and> derived lc gt st = Inr l"
    using that step_sort_key by blast
  assume s: "step lc gt e st = Some (Inr st')"
  show "1 \<le> currentPage st'" if "1 \<le> currentPage st"
    using s that by (rule step_page_positive)
  show "page_in_range lc gt st'" if "restores_range e \<and> 1 \<le> currentPage st"
    using s that step_restores_range by blast
  show "page_in_range lc gt st'" if "keeps_range e \<and> page_in_range lc gt st"
    using s that step_keeps_range by blast
  assume "changes_filter e st"
  with s show one: "currentPage st' = 1"
    by (rule step_resets)
  from s obtain l' where "derived lc gt st' = Inr l'"
    using step_rendered by blast
  with one show "page_in_range lc gt st' \<longleftrightarrow> derived lc gt st' \<noteq> Inr []"
    by (simp add: page_in_range_def totalPages_positive)
qed

theorem page_after_event_witness:
  "step codeUnitCompare sample_getTime Next (initial ten) = Some (Inr on_page_two) \<and>
   1 \<le> currentPage (initial ten) \<and> 1 \<le> currentPage on_page_two \<and>
   restores_range Next \<and> page_in_range codeUnitCompare sample_getTime on_page_two \<and>
   step codeUnitCompare sample_getTime Previous on_page_two = Some (Inr (initial ten)) \<and>
   keeps_range Previous \<and> page_in_range codeUnitCompare sample_getTime (initial ten) \<and>
   step codeUnitCompare sample_getTime (SetSearchTerm ''BETA'') on_page_two =
     Some (Inr searching) \<and>
   changes_filter (SetSearchTerm ''BETA'') on_page_two \<and>
   currentPage searching = 1 \<and>
   derived codeUnitCompare sample_getTime searching \<noteq> Inr [] \<and>
   page_in_range codeUnitCompare sample_getTime searching \<and>
   derived codeUnitCompare sample_getTime (initial ten) = Inr ten \<and>
   step codeUnitCompare sample_getTime (SetSortBy ''capacity'') (initial ten) =
     Some (Inr ((initial ten)\<lparr>sortBy := ''capacity''\<rparr>))"
proof -
  note next_page = page_after_event [of codeUnitCompare sample_getTime Next "initial ten"
      on_page_two]
  note previous = page_after_event [of codeUnitCompare sample_getTime Previous on_page_two
      "initial ten"]
  note search = page_after_event [of codeUnitCompare sample_getTime "SetSearchTerm ''BETA''"
      on_page_two searching]
  note sort_key = page_after_event [where lc = codeUnitCompare and gt = sample_getTime
      and k = "''capacity''" and st = "initial ten" and l = ten]
  have s1: "step codeUnitCompare sample_getTime Next (initial ten) = Some (Inr on_page_two)"
    by code_simp
  have p1: "1 \<le> currentPage (initial ten)"
    by (simp add: initial_def)
  have k1: "restores_range Next"
    by simp
  have p2: "1 \<le> currentPage on_page_two"
    using next_page s1 p1 by blast
  have r2: "page_in_range codeUnitCompare sample_getTime on_page_two"
    using next_page s1 k1 p1 by blast
  have s3: "step codeUnitCompare sample_getTime Previous on_page_two = Some (Inr (initial ten))"
    by code_simp
  have k3: "keeps_range Previous"
    by simp
  have r1: "page_in_range codeUnitCompare sample_getTime (initial ten)"
    using previous s3 k3 r2 by blast
  have s2: "step codeUnitCompare sample_getTime (SetSearchTerm ''BETA'') on_page_two =
      Some (Inr searching)"
    by code_simp
  have c: "changes_filter (SetSearchTerm ''BETA'') on_page_two"
    by (simp add: on_page_two_def initial_def)
  have d: "derived codeUnitCompare sample_getTime searching \<noteq> Inr []"
    by code_simp
  have p3: "currentPage searching = 1"
    using search s2 c by blast
  have r3: "page_in_range codeUnitCompare sample_getTime searching"
    using search s2 c d by blast
  have d0: "derived codeUnitCompare sample_getTime (initial ten) = Inr ten"
    by code_simp
  have k4: "''capacity'' \<noteq> ''progress''"
    by simp
  have s4: "step codeUnitCompare sample_getTime (SetSortBy ''capacity'') (initial ten) =
      Some (Inr ((initial ten)\<lparr>sortBy := ''capacity''\<rparr>))"
    using sort_key k4 d0 by blast
  show ?thesis
    by (intro conjI s1 p1 p2 k1 r2 s3 k3 r1 s2 c p3 d r3 d0 s4)
qed

text \<open>
  Ten records on page 2 of 2; the parent then hands over two records. The page stays
  2 and the derived list has one page. Before any record is loaded the page is 1 and
  there are no pages.
\<close>

theorem page_in_range_counterexample:
  "step codeUnitCompare sample_getTime Next (initial ten) = Some (Inr on_page_two) \<and>
   page_in_range codeUnitCompare sample_getTime on_page_two \<and>
   step codeUnitCompare sample_getTime (SetProjects [alpha, beta]) on_page_two =
     Some (Inr shrunk) \<and>
   derived codeUnitCompare sample_getTime shrunk = Inr [alpha, beta] \<and>
   totalPages [alpha, beta] = 1 \<and>
   currentPage shrunk = 2 \<and>
   \<not> page_in_range codeUnitCompare sample_getTime shrunk \<and>
   derived codeUnitCompare sample_getTime (initial []) = Inr [] \<and>
   \<not> page_in_range codeUnitCompare sample_getTime (initial [])"
proof -
  have s1: "step codeUnitCompare sample_getTime Next (initial ten) = Some (Inr on_page_two)"
    by code_simp
  have r1: "page_in_range codeUnitCompare sample_getTime on_page_two"
    by code_simp
  have s2: "step codeUnitCompare sample_getTime (SetProjects [alpha, beta]) on_page_two =
      Some (Inr shrunk)"
    by code_simp
  have d: "derived codeUnitCompare sample_getTime shrunk = Inr [alpha, beta]"
    by code_simp
  have t: "totalPages [alpha, beta] = 1"
    by (simp add: totalPages_div)
  have p: "currentPage shrunk = 2"
    by (simp add: shrunk_def on_page_two_def)
  have r2: "\<not> page_in_range codeUnitCompare sample_getTime shrunk"
    using d t p by (simp add: page_in_range_def)
  have d0: "derived codeUnitCompare sample_getTime (initial []) = Inr []"
    by code_simp
  have r3: "\<not> page_in_range codeUnitCompare sample_getTime (initial [])"
    by code_simp
  show ?thesis
    by (intro conjI s1 r1 s2 d t p r2 d0 r3)
qed

text \<open>
  The sort key "progress" chosen with ten records on the screen: the next render
  throws.
\<close>

lemma progress_key_ends_render:
  "step codeUnitCompare sample_getTime (SetSortBy ''progress'') (initial ten) =
     Some (Inl (ReferenceError ''calculateProgress''))"
  by code_simp

section \<open>Budget utilization\<close>






section \<open>Fallback of the active count\<close>

text \<open>
  Claim C9: when the fetch of the count fails, the error goes to the console and the
  count becomes the length of the loaded project list, nothing else changes; when it
  succeeds, the count is the total count of the response to the query for the statuses
  "InProgress,Planning,OnHold", whatever the loaded list is.
\<close>

theorem fetchCount_fallback:
  "(getAllProjects activeQuery = Inl err \<longrightarrow>
      activeProjectsCount (fetchCount getAllProjects ps st) = int (length ps) \<and>
      console_error (fetchCount getAllProjects ps st) =
        console_error st @ [(''Error fetching count'', err)]) \<and>
   (getAllProjects activeQuery = Inr response \<longrightarrow>
      activeProjectsCount (fetchCount getAllProjects ps st) = totalCount response \<and>
      console_error (fetchCount getAllProjects ps st) = console_error st \<and>
      fetchCount getAllProjects ps st = fetchCount getAllProjects qs st) \<and>
   statusList activeQuery = ''InProgress,Planning,OnHold'' \<and>
   pageNumber activeQuery = 1 \<and> pageSize activeQuery = 1"
  by (simp add: fetchCount_def activeQuery_def)

theorem fetchCount_fallback_witness:
  "failing_api activeQuery = Inl ''Network Error'' \<and>
   activeProjectsCount (fetchCount failing_api [alpha, beta] overview_initial) = 2 \<and>
   console_error (fetchCount failing_api [alpha, beta] overview_initial) =
     [(''Error fetching count'', ''Network Error'')] \<and>
   working_api activeQuery = Inr \<lparr>items = [beta], totalCount = 7\<rparr> \<and>
   activeProjectsCount (fetchCount working_api [alpha, beta] overview_initial) = 7 \<and>
   console_error (fetchCount working_api [alpha, beta] overview_initial) = [] \<and>
   fetchCount working_api [alpha, beta] overview_initial =
     fetchCount working_api [] overview_initial"
proof -
  have f: "failing_api activeQuery = Inl ''Network Error''"
    by (simp add: failing_api_def)
  have w: "working_api activeQuery = Inr \<lparr>items = [beta], totalCount = 7\<rparr>"
    by (simp add: working_api_def activeQuery_def)
  have i: "console_error overview_initial = []"
    by (simp add: overview_initial_def)
  note failed = fetchCount_fallback [of failing_api "''Network Error''" "[alpha, beta]"
      overview_initial]
  note fetched = fetchCount_fallback [where getAllProjects = working_api
      and ps = "[alpha, beta]" and st = overview_initial and qs = "[]"
      and response = "\<lparr>items = [beta], totalCount = 7\<rparr>"]
  have a1: "activeProjectsCount (fetchCount failing_api [alpha, beta] overview_initial) = 2"
    using failed f by simp
  have a2: "console_error (fetchCount failing_api [alpha, beta] overview_initial) =
      [(''Error fetching count'', ''Network Error'')]"
    using failed f i by simp
  have c: "activeProjectsCount (fetchCount working_api [alpha, beta] overview_initial) =
      totalCount \<lparr>items = [beta], totalCount = 7\<rparr>"
    "console_error (fetchCount working_api [alpha, beta] overview_initial) =
      console_error overview_initial"
    and b3: "fetchCount working_api [alpha, beta] overview_initial =
      fetchCount working_api [] overview_initial"
    using fetched w by blast+
  have b1: "activeProjectsCount (fetchCount working_api [alpha, beta] overview_initial) = 7"
    using c(1) by simp
  have b2: "console_error (fetchCount working_api [alpha, beta] overview_initial) = []"
    using c(2) i by simp
  show ?thesis
    by (intro conjI f a1 a2 w b1 b2 b3)
qed

end
